theory Spec2Isabelle
  imports Complex_Main
begin

section \<open>Conversation memory (utils/memory.py)\<close>

text \<open>
  A turn is the dictionary \<^verbatim>\<open>{"role": ..., "content": ..., "ts": ...}\<close>. The time
  stamp comes from \<^verbatim>\<open>datetime.now().isoformat()\<close>; the clock is an input of the model.
\<close>

record turn =
  role :: string
  content :: string
  ts :: string

text \<open>
  \<^verbatim>\<open>collections.deque(maxlen=n)\<close>: the bound is fixed when the deque is made, a negative
  bound raises \<^verbatim>\<open>ValueError\<close>, and \<^verbatim>\<open>append\<close> on a full deque drops the leftmost item.
\<close>

record turn_deque =
  maxlen :: nat
  items :: "turn list"

datatype error = ValueError | KeyError

definition deque_new :: "int \<Rightarrow> error + turn_deque" where
  "deque_new n = (if n < 0 then Inl ValueError else Inr \<lparr>maxlen = nat n, items = []\<rparr>)"

definition deque_append :: "turn_deque \<Rightarrow> turn \<Rightarrow> turn_deque" where
  "deque_append d x =
     (let xs = items d @ [x]
      in d\<lparr>items := (if maxlen d < length xs then tl xs else xs)\<rparr>)"

record ConversationMemory =
  max_turns :: int
  sessions :: "string \<rightharpoonup> turn_deque"

definition init_memory :: "int \<Rightarrow> ConversationMemory" where
  "init_memory mt = \<lparr>max_turns = mt, sessions = Map.empty\<rparr>"

definition add_turn ::
  "ConversationMemory \<Rightarrow> string \<Rightarrow> string \<Rightarrow> string \<Rightarrow> string \<Rightarrow> error + ConversationMemory" where
  "add_turn m session_id r c now =
     (let t = \<lparr>role = r, content = c, ts = now\<rparr>
      in case sessions m session_id of
           Some d \<Rightarrow> Inr (m\<lparr>sessions := (sessions m)(session_id \<mapsto> deque_append d t)\<rparr>)
         | None \<Rightarrow>
             (case deque_new (max_turns m * 2) of
                Inl e \<Rightarrow> Inl e
              | Inr d \<Rightarrow> Inr (m\<lparr>sessions := (sessions m)(session_id \<mapsto> deque_append d t)\<rparr>)))"

definition get_history :: "ConversationMemory \<Rightarrow> string \<Rightarrow> turn list" where
  "get_history m session_id = (case sessions m session_id of None \<Rightarrow> [] | Some d \<Rightarrow> items d)"

definition clear :: "ConversationMemory \<Rightarrow> string \<Rightarrow> ConversationMemory" where
  "clear m session_id = m\<lparr>sessions := (sessions m)(session_id := None)\<rparr>"

text \<open>
  A sequence of \<^verbatim>\<open>add_turn\<close> calls, each given as (session id, role, content, clock
  reading); the first call that raises ends the run.
\<close>

type_synonym add_call = "string \<times> string \<times> string \<times> string"

fun add_turns :: "ConversationMemory \<Rightarrow> add_call list \<Rightarrow> error + ConversationMemory" where
  "add_turns m [] = Inr m"
| "add_turns m ((sid, r, c, now) # calls) =
     (case add_turn m sid r c now of Inl e \<Rightarrow> Inl e | Inr m' \<Rightarrow> add_turns m' calls)"

text \<open>The turns a call sequence appends to one session, in call order.\<close>

fun turns_of :: "string \<Rightarrow> add_call list \<Rightarrow> turn list" where
  "turns_of sid [] = []"
| "turns_of sid ((s, r, c, now) # calls) =
     (if s = sid then \<lparr>role = r, content = c, ts = now\<rparr> # turns_of sid calls
      else turns_of sid calls)"

definition last_n :: "nat \<Rightarrow> 'a list \<Rightarrow> 'a list" where
  "last_n n xs = drop (length xs - n) xs"

text \<open>
  The invariant of a memory built by \<^verbatim>\<open>add_turn\<close> alone: every deque has the bound
  \<open>2 * max_turns\<close> and holds the last turns of what was appended to its session.
\<close>

definition window_inv :: "ConversationMemory \<Rightarrow> (string \<Rightarrow> turn list) \<Rightarrow> bool" where
  "window_inv m H \<longleftrightarrow>
     0 \<le> max_turns m \<and>
     (\<forall>sid. sessions m sid = None \<longrightarrow> H sid = []) \<and>
     (\<forall>sid d. sessions m sid = Some d \<longrightarrow>
        maxlen d = nat (2 * max_turns m) \<and> items d = last_n (maxlen d) (H sid))"

section \<open>Python strings and slices\<close>

text \<open>
  Strings are lists of code points below 256. \<^verbatim>\<open>str.isspace\<close>, the class \<^verbatim>\<open>\s\<close>
  and the class \<^verbatim>\<open>\w\<close> of Python's \<^verbatim>\<open>re\<close> are written out for these code points.
\<close>

definition is_space :: "char \<Rightarrow> bool" where
  "is_space c =
     (let n = (of_char c :: nat)
      in (9 \<le> n \<and> n \<le> 13) \<or> (28 \<le> n \<and> n \<le> 32) \<or> n = 133 \<or> n = 160)"

definition py_strip :: "string \<Rightarrow> string" where
  "py_strip s = rev (dropWhile is_space (rev (dropWhile is_space s)))"

text \<open>\<^verbatim>\<open>" ".join(xs)\<close>\<close>

fun join_sp :: "string list \<Rightarrow> string" where
  "join_sp [] = []"
| "join_sp [x] = x"
| "join_sp (x # y # ys) = x @ CHR '' '' # join_sp (y # ys)"

text \<open>
  \<^verbatim>\<open>xs[i:]\<close> and \<^verbatim>\<open>xs[:k]\<close> for any integer: a negative index counts from the end
  and is clamped at the start of the list.
\<close>

definition py_slice_from :: "int \<Rightarrow> 'a list \<Rightarrow> 'a list" where
  "py_slice_from i xs =
     (if i < 0 then drop (nat (int (length xs) + i)) xs else drop (nat i) xs)"

definition py_slice_to :: "int \<Rightarrow> 'a list \<Rightarrow> 'a list" where
  "py_slice_to k xs =
     (if k < 0 then take (nat (int (length xs) + k)) xs else take (nat k) xs)"

text \<open>
  \<^verbatim>\<open>re.split(r'(?<=[.!?])\s+', text)\<close>: a separator is a maximal run of white space
  whose left neighbour is one of \<^verbatim>\<open>.\<close>, \<^verbatim>\<open>!\<close>, \<^verbatim>\<open>?\<close>. The accumulator holds the
  current piece reversed; \<open>skipping\<close> is set while a separator is being consumed.
\<close>

definition is_sentence_end :: "char \<Rightarrow> bool" where
  "is_sentence_end c \<longleftrightarrow> c = CHR ''.'' \<or> c = CHR ''!'' \<or> c = CHR ''?''"

fun re_split_aux :: "bool \<Rightarrow> string \<Rightarrow> string \<Rightarrow> string list" where
  "re_split_aux skipping acc [] = [rev acc]"
| "re_split_aux skipping acc (c # cs) =
     (if skipping \<and> is_space c then re_split_aux True acc cs
      else if is_space c \<and> acc \<noteq> [] \<and> is_sentence_end (hd acc)
        then rev acc # re_split_aux True [] cs
      else re_split_aux False (c # acc) cs)"

definition re_split_sentences :: "string \<Rightarrow> string list" where
  "re_split_sentences t = re_split_aux False [] t"

text \<open>
  \<^verbatim>\<open>round(x, 4)\<close> on the real number \<open>x\<close>: the nearest multiple of \<open>1/10000\<close>, a tie
  going to the even one. Scores are real numbers here; the binary representation of
  Python's floats (and NaN) is outside the model.
\<close>

definition py_round4 :: "real \<Rightarrow> real" where
  "py_round4 x =
     (let y = x * 10000; f = \<lfloor>y\<rfloor>; d = y - of_int f
      in of_int (if d < 1 / 2 then f else if 1 / 2 < d then f + 1
                 else if even f then f else f + 1) / 10000)"

section \<open>Chunker (utils/document\_processor.py)\<close>

record chunk_meta =
  source :: string
  chunk_idx :: nat
  char_count :: nat

record DocumentChunk =
  chunk_text :: string
  metadata :: chunk_meta

text \<open>The loop variables of \<^verbatim>\<open>_split_text\<close>.\<close>

record split_state =
  chunks :: "DocumentChunk list"
  current :: "string list"
  curr_len :: nat

text \<open>
  \<^verbatim>\<open>if chunk_text: chunks.append(DocumentChunk(...))\<close>, with \<^verbatim>\<open>len(chunks)\<close> read
  before the append.
\<close>

definition append_chunk :: "string \<Rightarrow> string \<Rightarrow> DocumentChunk list \<Rightarrow> DocumentChunk list" where
  "append_chunk txt src cs =
     (if txt \<noteq> []
      then cs @ [\<lparr>chunk_text = txt,
                  metadata = \<lparr>source = src, chunk_idx = length cs, char_count = length txt\<rparr>\<rparr>]
      else cs)"

text \<open>\<^verbatim>\<open>chunk_text[-self.chunk_overlap:]\<close>\<close>

definition overlap_text :: "int \<Rightarrow> string \<Rightarrow> string" where
  "overlap_text chunk_overlap txt = py_slice_from (- chunk_overlap) txt"

text \<open>The test \<^verbatim>\<open>curr_len + s_len > self.chunk_size and current\<close> that closes a chunk.\<close>

definition triggers_cut :: "int \<Rightarrow> split_state \<Rightarrow> string \<Rightarrow> bool" where
  "triggers_cut chunk_size st sentence \<longleftrightarrow>
     chunk_size < int (curr_len st) + int (length sentence) \<and> current st \<noteq> []"

text \<open>One iteration of the \<^verbatim>\<open>for sentence in sentences\<close> loop.\<close>

definition split_step :: "int \<Rightarrow> int \<Rightarrow> string \<Rightarrow> split_state \<Rightarrow> string \<Rightarrow> split_state" where
  "split_step chunk_size chunk_overlap src st sentence =
     (let st' =
        (if triggers_cut chunk_size st sentence
         then (let txt = py_strip (join_sp (current st));
                   ov = overlap_text chunk_overlap txt
               in \<lparr>chunks = append_chunk txt src (chunks st), current = [ov],
                   curr_len = length ov\<rparr>)
         else st)
      in \<lparr>chunks = chunks st', current = current st' @ [sentence],
          curr_len = curr_len st' + length sentence + 1\<rparr>)"

definition split_sentences_loop ::
  "int \<Rightarrow> int \<Rightarrow> string \<Rightarrow> string list \<Rightarrow> DocumentChunk list" where
  "split_sentences_loop chunk_size chunk_overlap src sentences =
     (let st = foldl (split_step chunk_size chunk_overlap src)
                 \<lparr>chunks = [], current = [], curr_len = 0\<rparr> sentences
      in if current st \<noteq> []
         then append_chunk (py_strip (join_sp (current st))) src (chunks st)
         else chunks st)"

definition split_text :: "int \<Rightarrow> int \<Rightarrow> string \<Rightarrow> string \<Rightarrow> DocumentChunk list" where
  "split_text chunk_size chunk_overlap txt src =
     split_sentences_loop chunk_size chunk_overlap src (re_split_sentences txt)"



text \<open>The chunk indices of a list of chunks count up from 0.\<close>

definition idx_ok :: "DocumentChunk list \<Rightarrow> bool" where
  "idx_ok cs \<longleftrightarrow> map (\<lambda>c. chunk_idx (metadata c)) cs = [0..<length cs]"



section \<open>Vector store (utils/vector\_store.py)\<close>

text \<open>
  The Chroma collection is an external service. Its content is a list of entries with
  pairwise different identifiers; \<^verbatim>\<open>get(where={"source": s})\<close> yields the identifiers
  of the entries whose metadata has that source and \<^verbatim>\<open>delete(ids)\<close> removes the
  entries with these identifiers.
\<close>

record entry =
  entry_id :: string
  document :: string
  meta :: chunk_meta

definition collection_get_ids :: "entry list \<Rightarrow> string \<Rightarrow> string list" where
  "collection_get_ids coll src = map entry_id (filter (\<lambda>e. source (meta e) = src) coll)"

definition collection_delete :: "entry list \<Rightarrow> string list \<Rightarrow> entry list" where
  "collection_delete coll ids = filter (\<lambda>e. entry_id e \<notin> set ids) coll"

definition delete_source :: "entry list \<Rightarrow> string \<Rightarrow> error + entry list" where
  "delete_source coll src =
     (let ids = collection_get_ids coll src
      in if ids \<noteq> [] then Inr (collection_delete coll ids) else Inl ValueError)"

text \<open>
  A retrieval hit is the dictionary \<^verbatim>\<open>{"text", "metadata", "score"}\<close>; the re-ranker
  may add the key \<^verbatim>\<open>"rerank_score"\<close> later.
\<close>

record hit =
  hit_text :: string
  hit_meta :: chunk_meta
  score :: real
  rerank_score :: "real option"

text \<open>\<^verbatim>\<open>min(top_k, self._collection.count() or 1)\<close>\<close>

definition n_results :: "int \<Rightarrow> nat \<Rightarrow> int" where
  "n_results top_k count = min top_k (if count = 0 then 1 else int count)"

text \<open>
  The query operation of the service is a parameter: it is given the query text, the
  number of results asked for and the \<^verbatim>\<open>where\<close> filter, and answers with rows
  (document, metadata, distance) or with an error, which \<^verbatim>\<open>similarity_search\<close> lets
  through.
\<close>

type_synonym row = "string \<times> chunk_meta \<times> real"

definition hit_of_row :: "row \<Rightarrow> hit" where
  "hit_of_row r =
     (case r of (doc, m, distance) \<Rightarrow>
        \<lparr>hit_text = doc, hit_meta = m, score = py_round4 (1 - distance), rerank_score = None\<rparr>)"

definition similarity_search ::
  "(string \<Rightarrow> int \<Rightarrow> string option \<Rightarrow> 'e + row list) \<Rightarrow> nat \<Rightarrow> string \<Rightarrow> int \<Rightarrow> string option
     \<Rightarrow> 'e + hit list" where
  "similarity_search query_service count query top_k source_filter =
     (let wh = (case source_filter of None \<Rightarrow> None
                | Some s \<Rightarrow> if s \<noteq> [] then Some s else None)
      in case query_service query (n_results top_k count) wh of
           Inl e \<Rightarrow> Inl e
         | Inr rows \<Rightarrow> Inr (map hit_of_row rows))"

text \<open>
  A stand-in for the service, to run \<^verbatim>\<open>similarity_search\<close> on: the nearest entries
  first, at most as many as asked for; a request for no results is refused.
\<close>

definition list_query ::
  "entry list \<Rightarrow> (string \<Rightarrow> string \<Rightarrow> real) \<Rightarrow> string \<Rightarrow> int \<Rightarrow> string option \<Rightarrow> unit + row list" where
  "list_query coll distance query n wh =
     (if n \<le> 0 then Inl ()
      else Inr (take (nat n)
             (sort_key (\<lambda>r. snd (snd r))
                (map (\<lambda>e. (document e, meta e, distance query (document e)))
                   (filter (\<lambda>e. case wh of None \<Rightarrow> True | Some s \<Rightarrow> source (meta e) = s) coll)))))"

section \<open>Re-ranker (utils/reranker.py)\<close>

text \<open>
  The hits are dictionaries that the caller and the re-ranker share, so they live in a
  store and the list \<^verbatim>\<open>documents\<close> holds their addresses. The cross-encoder is
  \<open>None\<close> when it could not be loaded; \<^verbatim>\<open>predict\<close> scores each (query, text) pair.
  The result holds the store after the call, the batches sent to \<^verbatim>\<open>predict\<close> and the
  returned list.
\<close>

type_synonym addr = nat
type_synonym store = "addr \<Rightarrow> hit"

definition write_scores :: "(addr \<times> real) list \<Rightarrow> store \<Rightarrow> store" where
  "write_scores ds h =
     fold (\<lambda>(d, s) hp. hp(d := (hp d)\<lparr>rerank_score := Some (py_round4 s)\<rparr>)) ds h"

definition rerank ::
  "(string \<Rightarrow> string \<Rightarrow> real) option \<Rightarrow> store \<Rightarrow> string \<Rightarrow> addr list \<Rightarrow> int
     \<Rightarrow> error + store \<times> (string \<times> string) list list \<times> addr list" where
  "rerank model h query documents top_k =
     (if documents = [] then Inr (h, [], [])
      else case model of
        None \<Rightarrow> Inr (h, [], py_slice_to top_k documents)
      | Some predict \<Rightarrow>
          (let pairs = map (\<lambda>d. (query, hit_text (h d))) documents;
               scores = map (\<lambda>(q, t). predict q t) pairs;
               h' = write_scores (zip documents scores) h
           in if list_ex (\<lambda>d. rerank_score (h' d) = None) documents then Inl KeyError
              else (let ranked = sort_key (\<lambda>d. - the (rerank_score (h' d))) documents
                    in Inr (h', [pairs], py_slice_to top_k ranked))))"

section \<open>Evaluator (utils/evaluator.py)\<close>

definition lower_char :: "char \<Rightarrow> char" where
  "lower_char c =
     (let n = (of_char c :: nat)
      in if (65 \<le> n \<and> n \<le> 90) \<or> (192 \<le> n \<and> n \<le> 214) \<or> (216 \<le> n \<and> n \<le> 222)
         then char_of (n + 32) else c)"

definition py_lower :: "string \<Rightarrow> string" where
  "py_lower s = map lower_char s"

definition is_word_char :: "char \<Rightarrow> bool" where
  "is_word_char c =
     (let n = (of_char c :: nat)
      in (48 \<le> n \<and> n \<le> 57) \<or> (65 \<le> n \<and> n \<le> 90) \<or> n = 95 \<or> (97 \<le> n \<and> n \<le> 122) \<or>
         n = 170 \<or> n = 178 \<or> n = 179 \<or> n = 181 \<or> n = 185 \<or> n = 186 \<or>
         (188 \<le> n \<and> n \<le> 190) \<or> (192 \<le> n \<and> n \<le> 214) \<or> (216 \<le> n \<and> n \<le> 246) \<or>
         (248 \<le> n \<and> n \<le> 255))"

definition is_az :: "char \<Rightarrow> bool" where
  "is_az c = (let n = (of_char c :: nat) in 97 \<le> n \<and> n \<le> 122)"

text \<open>The maximal runs of \<^verbatim>\<open>\w\<close> characters, left to right.\<close>

fun word_runs :: "string \<Rightarrow> string \<Rightarrow> string list" where
  "word_runs acc [] = (if acc = [] then [] else [rev acc])"
| "word_runs acc (c # cs) =
     (if is_word_char c then word_runs (c # acc) cs
      else if acc = [] then word_runs [] cs
      else rev acc # word_runs [] cs)"

text \<open>
  \<^verbatim>\<open>re.findall(r'\b[a-z]{2,}\b', text.lower())\<close>: a match starts and ends at a word
  boundary, so it is a whole run of \<^verbatim>\<open>\w\<close> characters, made of at least two letters
  \<^verbatim>\<open>a\<close> to \<^verbatim>\<open>z\<close> and nothing else.
\<close>

definition tokenize :: "string \<Rightarrow> string list" where
  "tokenize txt = filter (\<lambda>w. 2 \<le> length w \<and> list_all is_az w) (word_runs [] (py_lower txt))"

definition split_sentences :: "string \<Rightarrow> string list" where
  "split_sentences txt =
     map py_strip (filter (\<lambda>s. py_strip s \<noteq> []) (re_split_sentences txt))"

definition faithfulness :: "string \<Rightarrow> string list \<Rightarrow> real" where
  "faithfulness answer contexts =
     (if contexts = [] \<or> answer = [] then 0
      else (let answer_sentences = split_sentences answer
            in if answer_sentences = [] then 0
               else (let combined_context = py_lower (join_sp contexts);
                         supported = length (filter (\<lambda>sent.
                           (let tokens = set (tokenize sent)
                            in tokens \<noteq> {} \<and>
                               1 / 2 < real (card (tokens \<inter> set (tokenize combined_context)))
                                         / real (card tokens))) answer_sentences)
                     in py_round4 (real supported / real (length answer_sentences)))))"

definition stopwords :: "string set" where
  "stopwords = {''what'', ''is'', ''the'', ''a'', ''an'', ''of'', ''in'', ''to'', ''how'',
                ''does'', ''do'', ''can'', ''who'', ''when'', ''where'', ''why'', ''which''}"

definition answer_relevancy :: "string \<Rightarrow> string \<Rightarrow> real" where
  "answer_relevancy question answer =
     (if question = [] \<or> answer = [] then 0
      else (let q_tokens = set (tokenize question) - stopwords;
                a_tokens = set (tokenize answer)
            in if q_tokens = {} then 1 / 2
               else (let overlap = card (q_tokens \<inter> a_tokens);
                         sc = min (real overlap / real (card q_tokens)) 1;
                         sc' = (if length answer < 20 then sc * (1 / 2) else sc)
                     in py_round4 sc')))"

definition context_precision :: "string \<Rightarrow> string list \<Rightarrow> real" where
  "context_precision question contexts =
     (if contexts = [] then 0
      else (let q_tokens = set (tokenize question)
            in if q_tokens = {} then 1 / 2
               else (let relevant = length (filter (\<lambda>ctx.
                           3 / 10 < real (card (q_tokens \<inter> set (tokenize ctx)))
                                      / real (card q_tokens)) contexts)
                     in py_round4 (real relevant / real (length contexts)))))"

definition context_recall :: "string list \<Rightarrow> string \<Rightarrow> real" where
  "context_recall contexts ground_truth =
     (if ground_truth = [] \<or> contexts = [] then 0
      else (let gt_tokens = set (tokenize ground_truth);
                ctx_tokens = set (tokenize (join_sp contexts))
            in if gt_tokens = {} then 1 / 2
               else (let recall = real (card (gt_tokens \<inter> ctx_tokens)) / real (card gt_tokens)
                     in py_round4 (min recall 1))))"

text \<open>
  \<^verbatim>\<open>sum((Counter(a) & Counter(b)).values())\<close>: each token counts as often as it occurs in
  both lists.
\<close>

definition counter_common :: "string list \<Rightarrow> string list \<Rightarrow> nat" where
  "counter_common a b = (\<Sum>t \<leftarrow> remdups a. min (count_list a t) (count_list b t))"

definition answer_correctness :: "string \<Rightarrow> string \<Rightarrow> real" where
  "answer_correctness answer ground_truth =
     (if ground_truth = [] \<or> answer = [] then 0
      else (let a_tokens = tokenize answer;
                gt_tokens = tokenize ground_truth;
                common = counter_common a_tokens gt_tokens
            in if common = 0 then 0
               else (let precision = real common / real (length a_tokens);
                         recall = real common / real (length gt_tokens);
                         f1 = 2 * precision * recall / (precision + recall)
                     in py_round4 f1)))"

datatype quality = Excellent | Good | Fair | Poor

record evaluation =
  ev_faithfulness :: real
  ev_answer_relevancy :: real
  ev_context_precision :: real
  ev_context_recall :: "real option"
  ev_answer_correctness :: "real option"
  aggregate :: real
  quality_label :: quality

text \<open>
  The values of the dictionary \<^verbatim>\<open>scores\<close> that are not \<^verbatim>\<open>None\<close>, in insertion
  order; the key \<^verbatim>\<open>answer_correctness\<close> is absent without a ground truth.
\<close>

definition valid_scores :: "real \<Rightarrow> real \<Rightarrow> real \<Rightarrow> real option \<Rightarrow> real option \<Rightarrow> real list" where
  "valid_scores f r p cr ac =
     [f, r, p] @ (case cr of None \<Rightarrow> [] | Some x \<Rightarrow> [x]) @ (case ac of None \<Rightarrow> [] | Some x \<Rightarrow> [x])"

definition label_of :: "real \<Rightarrow> quality" where
  "label_of agg =
     (if 8 / 10 \<le> agg then Excellent else if 6 / 10 \<le> agg then Good
      else if 4 / 10 \<le> agg then Fair else Poor)"

definition evaluate :: "string \<Rightarrow> string \<Rightarrow> string list \<Rightarrow> string option \<Rightarrow> evaluation" where
  "evaluate question answer contexts ground_truth =
     (let gt = (case ground_truth of None \<Rightarrow> None | Some g \<Rightarrow> if g \<noteq> [] then Some g else None);
          f = faithfulness answer contexts;
          r = answer_relevancy question answer;
          p = context_precision question contexts;
          cr = map_option (context_recall contexts) gt;
          ac = map_option (answer_correctness answer) gt;
          valid = valid_scores f r p cr ac;
          agg = (if valid \<noteq> [] then py_round4 (sum_list valid / real (length valid)) else 0)
      in \<lparr>ev_faithfulness = f, ev_answer_relevancy = r, ev_context_precision = p,
          ev_context_recall = cr, ev_answer_correctness = ac,
          aggregate = agg, quality_label = label_of agg\<rparr>)"

text \<open>A score between 0 and 1.\<close>

definition unit_range :: "real \<Rightarrow> bool" where
  "unit_range x \<longleftrightarrow> 0 \<le> x \<and> x \<le> 1"

section \<open>Example data\<close>

text \<open>A small collection, a store of three hits and a scorer, to run the operations on.\<close>

definition demo_coll :: "entry list" where
  "demo_coll =
     [\<lparr>entry_id = ''a.txt_chunk_0'', document = ''one'',
       meta = \<lparr>source = ''a.txt'', chunk_idx = 0, char_count = 3\<rparr>\<rparr>,
      \<lparr>entry_id = ''b.txt_chunk_0'', document = ''two'',
       meta = \<lparr>source = ''b.txt'', chunk_idx = 0, char_count = 3\<rparr>\<rparr>,
      \<lparr>entry_id = ''a.txt_chunk_1'', document = ''three'',
       meta = \<lparr>source = ''a.txt'', chunk_idx = 1, char_count = 5\<rparr>\<rparr>]"

definition demo_store :: store where
  "demo_store a =
     \<lparr>hit_text = replicate a CHR ''x'',
      hit_meta = \<lparr>source = ''a.txt'', chunk_idx = a, char_count = a\<rparr>,
      score = 0, rerank_score = None\<rparr>"

definition demo_predict :: "string \<Rightarrow> string \<Rightarrow> real" where
  "demo_predict q t = real (length t)"

section \<open>Properties of the conversation memory\<close>

subsection \<open>The sliding window\<close>

lemma last_n_snoc:
  "last_n n (xs @ [x]) =
     (let ys = last_n n xs @ [x] in if n < length ys then tl ys else ys)"
proof -
  consider "n = 0" | "length xs < n" | "0 < n" "n \<le> length xs" by linarith
  then show ?thesis
  proof cases
    case 1
    then show ?thesis by (simp add: last_n_def)
  next
    case 2
    then show ?thesis by (simp add: last_n_def)
  next
    case 3
    then have ne: "drop (length xs - n) xs \<noteq> []" by simp
    have len: "length (drop (length xs - n) xs) = n" using 3 by simp
    have "drop (Suc (length xs) - n) (xs @ [x]) = drop (Suc (length xs - n)) xs @ [x]"
      using 3 by (simp add: Suc_diff_le)
    also have "\<dots> = tl (drop (length xs - n) xs) @ [x]"
      by (simp add: drop_Suc tl_drop)
    also have "\<dots> = tl (drop (length xs - n) xs @ [x])"
      using ne by simp
    finally have "last_n n (xs @ [x]) = tl (last_n n xs @ [x])"
      by (simp add: last_n_def)
    moreover have "n < length (last_n n xs @ [x])"
      using len by (simp add: last_n_def)
    ultimately show ?thesis by (simp add: Let_def)
  qed
qed

lemma length_last_n: "length (last_n n xs) \<le> n"
  by (simp add: last_n_def)

lemma add_turn_window:
  assumes "window_inv m H"
  shows "\<exists>m'. add_turn m sid r c now = Inr m' \<and>
           window_inv m' (H(sid := H sid @ [\<lparr>role = r, content = c, ts = now\<rparr>]))"
proof (cases "sessions m sid")
  case None
  from assms have mt: "0 \<le> max_turns m" and H: "H sid = []"
    using None by (auto simp: window_inv_def)
  let ?d = "\<lparr>maxlen = nat (max_turns m * 2), items = []\<rparr>"
  let ?m = "m\<lparr>sessions := (sessions m)(sid \<mapsto> deque_append ?d \<lparr>role = r, content = c, ts = now\<rparr>)\<rparr>"
  have "add_turn m sid r c now = Inr ?m"
    using None mt by (simp add: add_turn_def deque_new_def)
  moreover have "window_inv ?m (H(sid := H sid @ [\<lparr>role = r, content = c, ts = now\<rparr>]))"
    using assms H
    by (auto simp: window_inv_def deque_append_def last_n_def Let_def mult.commute
             split: option.splits)
  ultimately show ?thesis by blast
next
  case (Some d)
  from assms have d: "maxlen d = nat (2 * max_turns m)" "items d = last_n (maxlen d) (H sid)"
    using Some by (auto simp: window_inv_def)
  let ?m = "m\<lparr>sessions := (sessions m)(sid \<mapsto> deque_append d \<lparr>role = r, content = c, ts = now\<rparr>)\<rparr>"
  have "add_turn m sid r c now = Inr ?m"
    using Some by (simp add: add_turn_def)
  moreover have "window_inv ?m (H(sid := H sid @ [\<lparr>role = r, content = c, ts = now\<rparr>]))"
    using assms d
    by (auto simp: window_inv_def deque_append_def last_n_snoc Let_def split: option.splits)
  ultimately show ?thesis by blast
qed

lemma add_turns_window:
  "window_inv m H \<Longrightarrow>
     \<exists>m'. add_turns m calls = Inr m' \<and> window_inv m' (\<lambda>sid. H sid @ turns_of sid calls)"
proof (induction calls arbitrary: m H)
  case Nil
  then show ?case by simp
next
  case (Cons call calls)
  obtain s r c now where call: "call = (s, r, c, now)" by (cases call) auto
  from add_turn_window [OF Cons.prems, of s r c now]
  obtain m1 where m1: "add_turn m s r c now = Inr m1"
    and inv1: "window_inv m1 (H(s := H s @ [\<lparr>role = r, content = c, ts = now\<rparr>]))"
    by blast
  from Cons.IH [OF inv1] obtain m' where
    m': "add_turns m1 calls = Inr m'"
    and inv': "window_inv m'
        (\<lambda>sid. (H(s := H s @ [\<lparr>role = r, content = c, ts = now\<rparr>])) sid @ turns_of sid calls)"
    by blast
  have "(\<lambda>sid. (H(s := H s @ [\<lparr>role = r, content = c, ts = now\<rparr>])) sid @ turns_of sid calls)
      = (\<lambda>sid. H sid @ turns_of sid (call # calls))"
    by (auto simp: call fun_eq_iff)
  with inv' m' m1 show ?case by (simp add: call)
qed

lemma window_inv_init: "0 \<le> mt \<Longrightarrow> window_inv (init_memory mt) (\<lambda>_. [])"
  by (simp add: window_inv_def init_memory_def)

lemma add_turns_max_turns: "add_turns m calls = Inr m' \<Longrightarrow> max_turns m' = max_turns m"
proof (induction calls arbitrary: m)
  case Nil
  then show ?case by simp
next
  case (Cons call calls)
  obtain s r c now where call: "call = (s, r, c, now)" by (cases call) auto
  from Cons.prems obtain m1 where m1: "add_turn m s r c now = Inr m1"
    and rest: "add_turns m1 calls = Inr m'"
    by (auto simp: call split: sum.splits)
  from m1 have "max_turns m1 = max_turns m"
    by (auto simp: add_turn_def deque_new_def Let_def split: option.splits if_splits)
  with Cons.IH [OF rest] show ?case by simp
qed

lemma window_inv_history:
  "window_inv m H \<Longrightarrow> get_history m sid = last_n (nat (2 * max_turns m)) (H sid)"
  by (cases "sessions m sid") (auto simp: window_inv_def get_history_def last_n_def)

text \<open>
  With a negative \<open>max_turns\<close> the first \<^verbatim>\<open>add_turn\<close> of a session raises, since
  \<^verbatim>\<open>deque(maxlen=...)\<close> refuses a negative bound; no turn is ever stored then.
\<close>

lemma add_turn_negative_bound:
  "mt < 0 \<Longrightarrow> add_turn (init_memory mt) sid r c now = Inl ValueError"
  by (simp add: add_turn_def init_memory_def deque_new_def)

text \<open>
  C1. A memory made with a non-negative \<open>max_turns\<close> accepts every sequence of
  \<^verbatim>\<open>add_turn\<close> calls, whatever the sessions, roles and contents; afterwards each
  session's history has at most \<open>2 * max_turns\<close> turns and is exactly the last
  \<open>2 * max_turns\<close> turns appended to that session, in append order. The statement holds
  for every call sequence, hence after each call of a longer one.
\<close>

theorem add_turn_sliding_window:
  assumes "0 \<le> mt"
  shows "\<exists>m'. add_turns (init_memory mt) calls = Inr m' \<and>
           (\<forall>sid. get_history m' sid = last_n (nat (2 * mt)) (turns_of sid calls) \<and>
                  int (length (get_history m' sid)) \<le> 2 * mt)"
proof -
  from add_turns_window [OF window_inv_init [OF assms], of calls]
  obtain m' where run: "add_turns (init_memory mt) calls = Inr m'"
    and inv: "window_inv m' (\<lambda>sid. [] @ turns_of sid calls)"
    by blast
  have mt': "max_turns m' = mt"
    using add_turns_max_turns [OF run] by (simp add: init_memory_def)
  have "get_history m' sid = last_n (nat (2 * mt)) (turns_of sid calls)" for sid
    using window_inv_history [OF inv, of sid] mt' by simp
  moreover have "int (length (get_history m' sid)) \<le> 2 * mt" for sid
  proof -
    have "length (get_history m' sid) \<le> nat (2 * mt)"
      using window_inv_history [OF inv, of sid] mt' length_last_n [of "nat (2 * mt)"] by simp
    with assms show ?thesis by linarith
  qed
  ultimately show ?thesis using run by blast
qed

theorem add_turn_sliding_window_witness:
  "(0::int) \<le> 1 \<and>
   (\<exists>m'. add_turns (init_memory 1)
           [(''s'', ''user'', ''a'', ''t1''), (''s'', ''assistant'', ''b'', ''t2''),
            (''s'', ''user'', ''c'', ''t3'')] = Inr m' \<and>
         (\<forall>sid. get_history m' sid =
                  last_n (nat (2 * 1))
                    (turns_of sid
                      [(''s'', ''user'', ''a'', ''t1''), (''s'', ''assistant'', ''b'', ''t2''),
                       (''s'', ''user'', ''c'', ''t3'')]) \<and>
                int (length (get_history m' sid)) \<le> 2 * 1))"
proof -
  have h: "(0::int) \<le> 1" by simp
  show ?thesis
    using h add_turn_sliding_window [OF h,
      of "[(''s'', ''user'', ''a'', ''t1''), (''s'', ''assistant'', ''b'', ''t2''),
           (''s'', ''user'', ''c'', ''t3'')]"]
    by simp
qed

subsection \<open>Clearing a session\<close>

text \<open>
  C10. \<^verbatim>\<open>clear\<close> is \<^verbatim>\<open>self._sessions.pop(session_id, None)\<close>: it has no failing
  branch. On an unknown session it leaves the memory as it is, a second \<^verbatim>\<open>clear\<close>
  changes nothing more, and afterwards the session is unknown again and its history
  is the empty list.
\<close>

theorem clear_idempotent:
  "(sessions m sid = None \<longrightarrow> clear m sid = m) \<and>
   clear (clear m sid) sid = clear m sid \<and>
   sessions (clear m sid) sid = None \<and>
   get_history (clear m sid) sid = []"
proof -
  have "clear m sid = m" if "sessions m sid = None"
  proof -
    have "(sessions m)(sid := None) = sessions m"
      using that by (simp add: fun_upd_idem)
    then show ?thesis by (simp add: clear_def)
  qed
  then show ?thesis by (simp add: clear_def get_history_def)
qed

theorem clear_idempotent_witness:
  "sessions (init_memory 10) ''s1'' = None \<and>
   clear (init_memory 10) ''s1'' = init_memory 10 \<and>
   clear (clear (init_memory 10) ''s1'') ''s1'' = clear (init_memory 10) ''s1'' \<and>
   sessions (clear (init_memory 10) ''s1'') ''s1'' = None \<and>
   get_history (clear (init_memory 10) ''s1'') ''s1'' = []"
proof -
  have h: "sessions (init_memory 10) ''s1'' = None" by (simp add: init_memory_def)
  show ?thesis
    using h clear_idempotent [of "init_memory 10" "''s1''"] by blast
qed

section \<open>Properties of the vector store\<close>

lemma get_ids_empty_iff:
  "collection_get_ids coll src = [] \<longleftrightarrow> (\<forall>e \<in> set coll. source (meta e) \<noteq> src)"
  by (auto simp: collection_get_ids_def filter_empty_conv)

lemma delete_matching:
  assumes "distinct (map entry_id coll)"
  shows "collection_delete coll (collection_get_ids coll src) =
           filter (\<lambda>e. source (meta e) \<noteq> src) coll"
proof -
  have "entry_id e \<in> set (collection_get_ids coll src) \<longleftrightarrow> source (meta e) = src"
    if "e \<in> set coll" for e
  proof
    assume "entry_id e \<in> set (collection_get_ids coll src)"
    then obtain e' where e': "e' \<in> set coll" "source (meta e') = src" "entry_id e' = entry_id e"
      by (auto simp: collection_get_ids_def)
    from assms that e'(1,3) have "e' = e"
      by (meson distinct_map inj_onD)
    with e'(2) show "source (meta e) = src" by simp
  next
    assume "source (meta e) = src"
    with that show "entry_id e \<in> set (collection_get_ids coll src)"
      by (auto simp: collection_get_ids_def)
  qed
  then show ?thesis
    unfolding collection_delete_def by (auto intro: filter_cong)
qed

text \<open>
  C6. On a collection with pairwise different identifiers, \<^verbatim>\<open>delete_source\<close> removes
  exactly the entries whose metadata source is the given one and keeps the others, and
  it raises (\<^verbatim>\<open>ValueError\<close>, the not-found signal of this code) if and only if no
  entry has that source; so deleting a source that was never ingested raises.
\<close>

theorem delete_source_not_found_iff:
  assumes "distinct (map entry_id coll)"
  shows "delete_source coll src =
           (if \<exists>e \<in> set coll. source (meta e) = src
            then Inr (filter (\<lambda>e. source (meta e) \<noteq> src) coll)
            else Inl ValueError)"
  using get_ids_empty_iff [of coll src] delete_matching [OF assms, of src]
  by (auto simp: delete_source_def Let_def)

theorem delete_source_not_found_iff_witness:
  "distinct (map entry_id demo_coll) \<and>
   delete_source demo_coll ''a.txt'' =
     Inr [\<lparr>entry_id = ''b.txt_chunk_0'', document = ''two'',
           meta = \<lparr>source = ''b.txt'', chunk_idx = 0, char_count = 3\<rparr>\<rparr>] \<and>
   delete_source demo_coll ''c.txt'' = Inl ValueError"
proof -
  have h: "distinct (map entry_id demo_coll)" by (simp add: demo_coll_def)
  show ?thesis
    using h delete_source_not_found_iff [OF h, of "''a.txt''"]
      delete_source_not_found_iff [OF h, of "''c.txt''"]
    by (simp add: demo_coll_def)
qed



text \<open>
  With the stand-in service the clamped request brings back every entry of the
  collection.
\<close>

lemma similarity_search_list_query_all:
  assumes "coll \<noteq> []" and "int (length coll) < top_k"
  shows "\<exists>hits. similarity_search (list_query coll distance) (length coll) query top_k None =
                  Inr hits \<and> length hits = length coll"
  using assms by (simp add: similarity_search_def n_results_def list_query_def)


section \<open>Properties of the re-ranker\<close>

lemma write_scores_Cons:
  "write_scores ((d, s) # ds) h = write_scores ds (h(d := (h d)\<lparr>rerank_score := Some (py_round4 s)\<rparr>))"
  by (simp add: write_scores_def)

lemma write_scores_Nil: "write_scores [] h = h"
  by (simp add: write_scores_def)

lemma write_scores_other: "a \<notin> fst ` set ds \<Longrightarrow> write_scores ds h a = h a"
proof (induction ds arbitrary: h)
  case Nil
  then show ?case by (simp add: write_scores_Nil)
next
  case (Cons p ds)
  obtain d s where p: "p = (d, s)" by (cases p)
  from Cons.prems have "a \<noteq> d" "a \<notin> fst ` set ds" by (auto simp: p)
  with Cons.IH show ?case by (simp add: p write_scores_Cons)
qed

lemma write_scores_keeps:
  "rerank_score (h a) \<noteq> None \<Longrightarrow> rerank_score (write_scores ds h a) \<noteq> None"
proof (induction ds arbitrary: h)
  case Nil
  then show ?case by (simp add: write_scores_Nil)
next
  case (Cons p ds)
  obtain d s where p: "p = (d, s)" by (cases p)
  show ?case
    unfolding p write_scores_Cons using Cons.prems by (intro Cons.IH) simp
qed

lemma write_scores_sets:
  "a \<in> fst ` set ds \<Longrightarrow> rerank_score (write_scores ds h a) \<noteq> None"
proof (induction ds arbitrary: h)
  case Nil
  then show ?case by simp
next
  case (Cons p ds)
  obtain d s where p: "p = (d, s)" by (cases p)
  show ?case
  proof (cases "a = d")
    case True
    show ?thesis
      unfolding p write_scores_Cons by (rule write_scores_keeps) (simp add: True)
  next
    case False
    with Cons.prems have "a \<in> fst ` set ds" by (auto simp: p)
    then show ?thesis
      unfolding p write_scores_Cons by (rule Cons.IH)
  qed
qed

lemma write_scores_value:
  "distinct (map fst ds) \<Longrightarrow> (a, s) \<in> set ds \<Longrightarrow>
     rerank_score (write_scores ds h a) = Some (py_round4 s)"
proof (induction ds arbitrary: h)
  case Nil
  then show ?case by simp
next
  case (Cons p ds)
  obtain d s' where p: "p = (d, s')" by (cases p)
  show ?case
  proof (cases "(a, s) = (d, s')")
    case True
    with Cons.prems have "a \<notin> fst ` set ds" by (auto simp: p)
    then show ?thesis
      using True by (simp add: p write_scores_Cons write_scores_other)
  next
    case False
    with Cons.prems have "(a, s) \<in> set ds" "distinct (map fst ds)" by (auto simp: p)
    then show ?thesis
      unfolding p write_scores_Cons by (intro Cons.IH)
  qed
qed

lemma write_scores_frame:
  "hit_text (write_scores ds h a) = hit_text (h a) \<and>
   hit_meta (write_scores ds h a) = hit_meta (h a) \<and>
   score (write_scores ds h a) = score (h a)"
proof (induction ds arbitrary: h)
  case Nil
  then show ?case by (simp add: write_scores_Nil)
next
  case (Cons p ds)
  obtain d s where p: "p = (d, s)" by (cases p)
  show ?case
    unfolding p write_scores_Cons by (simp add: Cons.IH)
qed

lemma length_py_slice_to:
  "0 \<le> k \<Longrightarrow> int (length (py_slice_to k xs)) \<le> min k (int (length xs))"
  by (simp add: py_slice_to_def)

lemma set_py_slice_to: "set (py_slice_to k xs) \<subseteq> set xs"
  by (auto simp: py_slice_to_def dest: in_set_takeD)

lemma sorted_wrt_py_slice_to: "sorted_wrt P xs \<Longrightarrow> sorted_wrt P (py_slice_to k xs)"
  by (simp add: py_slice_to_def sorted_wrt_take)

lemma ranked_descending:
  "sorted_wrt (\<lambda>a b. f b \<le> f a) (sort_key (\<lambda>d. - f d) (ds :: addr list))"
  for f :: "addr \<Rightarrow> real"
proof -
  have "sorted (map (\<lambda>d. - f d) (sort_key (\<lambda>d. - f d) ds))"
    by (rule sorted_sort_key)
  then show ?thesis by (simp add: sorted_map)
qed

lemma rerank_active:
  assumes "documents \<noteq> []"
  shows "rerank (Some predict) h query documents top_k =
           (let pairs = map (\<lambda>d. (query, hit_text (h d))) documents;
                h' = write_scores (zip documents (map (\<lambda>(q, t). predict q t) pairs)) h
            in Inr (h', [pairs],
                 py_slice_to top_k (sort_key (\<lambda>d. - the (rerank_score (h' d))) documents)))"
proof -
  let ?pairs = "map (\<lambda>d. (query, hit_text (h d))) documents"
  let ?ds = "zip documents (map (\<lambda>(q, t). predict q t) ?pairs)"
  have fst: "fst ` set ?ds = set documents"
    by (simp flip: set_map)
  have "\<not> list_ex (\<lambda>d. rerank_score (write_scores ?ds h d) = None) documents"
    using write_scores_sets [of _ ?ds h] fst by (auto simp: list_ex_iff)
  then show ?thesis using assms by (simp add: rerank_def Let_def)
qed


text \<open>
  C3 (amended). For a \<open>top_n\<close> that is not negative, \<^verbatim>\<open>rerank\<close> never raises and
  returns at most \<open>min(top_n, len(documents))\<close> of the given hits; with the scorer
  loaded every returned hit carries a \<^verbatim>\<open>rerank_score\<close> and the list is in descending
  order of it; an empty input gives an empty list and no call of the scorer.
\<close>

theorem rerank_length_sorted:
  assumes "0 \<le> top_n"
  shows "\<exists>h' calls out.
           rerank model h query documents top_n = Inr (h', calls, out) \<and>
           int (length out) \<le> min top_n (int (length documents)) \<and>
           set out \<subseteq> set documents \<and>
           (model \<noteq> None \<longrightarrow>
              list_all (\<lambda>d. rerank_score (h' d) \<noteq> None) out \<and>
              sorted_wrt (\<lambda>a b. the (rerank_score (h' b)) \<le> the (rerank_score (h' a))) out) \<and>
           (documents = [] \<longrightarrow> out = [] \<and> calls = [])"
proof (cases "documents = []")
  case True
  then show ?thesis using assms by (simp add: rerank_def)
next
  case ne: False
  show ?thesis
  proof (cases model)
    case None
    then show ?thesis
      using ne assms length_py_slice_to [OF assms, of documents] set_py_slice_to [of top_n documents]
      by (simp add: rerank_def)
  next
    case (Some predict)
    let ?pairs = "map (\<lambda>d. (query, hit_text (h d))) documents"
    let ?ds = "zip documents (map (\<lambda>(q, t). predict q t) ?pairs)"
    let ?h = "write_scores ?ds h"
    let ?ranked = "sort_key (\<lambda>d. - the (rerank_score (?h d))) documents"
    let ?out = "py_slice_to top_n ?ranked"
    have run: "rerank model h query documents top_n = Inr (?h, [?pairs], ?out)"
      using rerank_active [OF ne, of predict h query top_n] by (simp add: Some Let_def)
    have len: "int (length ?out) \<le> min top_n (int (length documents))"
      using length_py_slice_to [OF assms, of ?ranked] by simp
    have sub: "set ?out \<subseteq> set documents"
      using set_py_slice_to [of top_n ?ranked] by simp
    have "fst ` set ?ds = set documents" by (simp flip: set_map)
    then have "rerank_score (?h d) \<noteq> None" if "d \<in> set documents" for d
      using write_scores_sets [of d ?ds h] that by simp
    with sub have scored: "list_all (\<lambda>d. rerank_score (?h d) \<noteq> None) ?out"
      by (auto simp: list_all_iff)
    have "sorted_wrt (\<lambda>a b. the (rerank_score (?h b)) \<le> the (rerank_score (?h a))) ?out"
      by (intro sorted_wrt_py_slice_to ranked_descending)
    with run len sub scored ne show ?thesis by simp
  qed
qed

theorem rerank_length_sorted_witness:
  "(0::int) \<le> 2 \<and>
   (\<exists>h' calls out.
      rerank (Some demo_predict) demo_store ''q'' [0, 1, 2] 2 = Inr (h', calls, out) \<and>
      int (length out) \<le> min 2 (int (length [0::nat, 1, 2])) \<and>
      set out \<subseteq> set [0, 1, 2] \<and>
      (Some demo_predict \<noteq> None \<longrightarrow>
         list_all (\<lambda>d. rerank_score (h' d) \<noteq> None) out \<and>
         sorted_wrt (\<lambda>a b. the (rerank_score (h' b)) \<le> the (rerank_score (h' a))) out) \<and>
      ([0::nat, 1, 2] = [] \<longrightarrow> out = [] \<and> calls = []))"
proof -
  have h: "(0::int) \<le> 2" by simp
  show ?thesis
    using h rerank_length_sorted [OF h, of "Some demo_predict" demo_store "''q''" "[0, 1, 2]"]
    by blast
qed

text \<open>
  With \<open>top_n = -1\<close> the slice \<^verbatim>\<open>documents[:-1]\<close> drops the last of three hits and
  returns two, more than \<open>min(top_n, 3)\<close>.
\<close>

theorem rerank_negative_top_n_counterexample:
  "rerank None demo_store ''q'' [0, 1, 2] (- 1) = Inr (demo_store, [], [0, 1]) \<and>
   \<not> int (length [0::nat, 1]) \<le> min (- 1) (int (length [0::nat, 1, 2]))"
  by (simp add: rerank_def py_slice_to_def)

text \<open>
  C9. With the scorer loaded and a non-empty input, \<^verbatim>\<open>rerank\<close> writes a
  \<^verbatim>\<open>rerank_score\<close> into every hit of the input list in the shared store, whatever
  \<open>top_k\<close> is, hence also into the hits it does not return; for pairwise different
  hits the value is the rounded score of that hit. The other keys of the hits and all
  other objects of the store stay as they were.
\<close>

theorem rerank_writes_every_hit:
  assumes "documents \<noteq> []"
  shows "\<exists>h' out.
           rerank (Some predict) h query documents top_k =
             Inr (h', [map (\<lambda>d. (query, hit_text (h d))) documents], out) \<and>
           (\<forall>d \<in> set documents. rerank_score (h' d) \<noteq> None) \<and>
           (distinct documents \<longrightarrow>
              (\<forall>d \<in> set documents.
                 rerank_score (h' d) = Some (py_round4 (predict query (hit_text (h d)))))) \<and>
           (\<forall>a. hit_text (h' a) = hit_text (h a) \<and> hit_meta (h' a) = hit_meta (h a) \<and>
                score (h' a) = score (h a)) \<and>
           (\<forall>a. a \<notin> set documents \<longrightarrow> h' a = h a)"
proof -
  let ?pairs = "map (\<lambda>d. (query, hit_text (h d))) documents"
  let ?ds = "zip documents (map (\<lambda>(q, t). predict q t) ?pairs)"
  let ?h = "write_scores ?ds h"
  let ?out = "py_slice_to top_k (sort_key (\<lambda>d. - the (rerank_score (?h d))) documents)"
  have run: "rerank (Some predict) h query documents top_k = Inr (?h, [?pairs], ?out)"
    using rerank_active [OF assms, of predict h query top_k] by (simp add: Let_def)
  have fst: "fst ` set ?ds = set documents" by (simp flip: set_map)
  have a: "\<forall>d \<in> set documents. rerank_score (?h d) \<noteq> None"
    using write_scores_sets [of _ ?ds h] fst by blast
  have b: "rerank_score (?h d) = Some (py_round4 (predict query (hit_text (h d))))"
    if "distinct documents" "d \<in> set documents" for d
  proof -
    have "map fst ?ds = documents" by (simp add: map_fst_zip)
    with that(1) have "distinct (map fst ?ds)" by simp
    moreover have "?ds = map (\<lambda>d. (d, predict query (hit_text (h d)))) documents"
      by (induction documents) simp_all
    then have "(d, predict query (hit_text (h d))) \<in> set ?ds"
      using that(2) by simp
    ultimately show ?thesis by (rule write_scores_value)
  qed
  have c: "\<forall>a. hit_text (?h a) = hit_text (h a) \<and> hit_meta (?h a) = hit_meta (h a) \<and>
                score (?h a) = score (h a)"
    using write_scores_frame [of ?ds h] by blast
  have d: "\<forall>a. a \<notin> set documents \<longrightarrow> ?h a = h a"
    using write_scores_other [of _ ?ds h] fst by blast
  from run a b c d show ?thesis by blast
qed

theorem rerank_writes_every_hit_witness:
  "[0::nat, 1, 2] \<noteq> [] \<and>
   (\<exists>h' out.
      rerank (Some demo_predict) demo_store ''q'' [0, 1, 2] 1 =
        Inr (h', [map (\<lambda>d. (''q'', hit_text (demo_store d))) [0, 1, 2]], out) \<and>
      out = [2] \<and>
      rerank_score (h' 0) = Some 0 \<and> rerank_score (h' 1) = Some 1 \<and>
      rerank_score (h' 2) = Some 2)"
proof -
  have h: "[0::nat, 1, 2] \<noteq> []" by simp
  have r0: "py_round4 0 = 0" and r1: "py_round4 1 = 1" and r2: "py_round4 2 = 2"
    by (simp_all add: py_round4_def)
  from rerank_writes_every_hit [OF h, of demo_predict demo_store "''q''" 1]
  obtain h' out where
    run: "rerank (Some demo_predict) demo_store ''q'' [0, 1, 2] 1 =
            Inr (h', [map (\<lambda>d. (''q'', hit_text (demo_store d))) [0, 1, 2]], out)"
    and val: "distinct [0::nat, 1, 2] \<longrightarrow>
          (\<forall>d \<in> set [0, 1, 2].
             rerank_score (h' d) = Some (py_round4 (demo_predict ''q'' (hit_text (demo_store d)))))"
    by blast
  from val have s: "rerank_score (h' 0) = Some 0" "rerank_score (h' 1) = Some 1"
      "rerank_score (h' 2) = Some 2"
    by (simp_all add: demo_predict_def demo_store_def r0 r1 r2)
  have "rerank (Some demo_predict) demo_store ''q'' [0, 1, 2] 1 =
          Inr (write_scores [(0, 0), (1, 1), (2, 2)] demo_store,
               [map (\<lambda>d. (''q'', hit_text (demo_store d))) [0, 1, 2]], [2])"
    by (simp add: rerank_def write_scores_def demo_predict_def demo_store_def r0 r1 r2
          py_slice_to_def Let_def)
  with run have "out = [2]" by simp
  with run s h show ?thesis by blast
qed

section \<open>Properties of the chunker\<close>

subsection \<open>Chunk indices\<close>

lemma idx_ok_append_chunk: "idx_ok cs \<Longrightarrow> idx_ok (append_chunk txt src cs)"
  by (simp add: idx_ok_def append_chunk_def)

lemma chunks_split_step:
  "chunks (split_step chunk_size chunk_overlap src st s) =
     (if triggers_cut chunk_size st s
      then append_chunk (py_strip (join_sp (current st))) src (chunks st) else chunks st)"
  by (simp add: split_step_def Let_def)

lemma idx_ok_split_step:
  "idx_ok (chunks st) \<Longrightarrow> idx_ok (chunks (split_step chunk_size chunk_overlap src st s))"
  by (simp add: chunks_split_step idx_ok_append_chunk)

lemma idx_ok_foldl:
  "idx_ok (chunks st) \<Longrightarrow>
     idx_ok (chunks (foldl (split_step chunk_size chunk_overlap src) st sentences))"
  by (induction sentences arbitrary: st) (simp_all add: idx_ok_split_step)

text \<open>
  C8. The chunks returned by one call of \<^verbatim>\<open>_split_text\<close> carry the indices
  \<open>0, 1, 2, \<dots>\<close> in order: chunk \<open>i\<close> of the output has \<^verbatim>\<open>chunk_idx\<close> \<open>i\<close>, for every
  text, source, chunk size and overlap.
\<close>

theorem chunk_idx_contiguous:
  "map (\<lambda>c. chunk_idx (metadata c)) (split_text chunk_size chunk_overlap txt src) =
     [0..<length (split_text chunk_size chunk_overlap txt src)]"
proof -
  let ?st = "foldl (split_step chunk_size chunk_overlap src)
               \<lparr>chunks = [], current = [], curr_len = 0\<rparr> (re_split_sentences txt)"
  have "idx_ok (chunks ?st)"
    by (rule idx_ok_foldl) (simp add: idx_ok_def)
  then have "idx_ok (split_text chunk_size chunk_overlap txt src)"
    by (simp add: split_text_def split_sentences_loop_def Let_def idx_ok_append_chunk)
  then show ?thesis by (simp add: idx_ok_def)
qed

subsection \<open>Chunk sizes and the overlap\<close>















section \<open>Properties of the evaluator\<close>

lemma round_one: "py_round4 1 = 1"
  by (simp add: py_round4_def)

subsection \<open>The faithfulness scenario\<close>

lemma tok_answer:
  "tokenize ''Paris is the capital of France.'' =
     [''paris'', ''is'', ''the'', ''capital'', ''of'', ''france'']"
  by code_simp

lemma tok_context:
  "tokenize (py_lower (join_sp [''France's capital is Paris, a major European city.''])) =
     [''france'', ''capital'', ''is'', ''paris'', ''major'', ''european'', ''city'']"
  by code_simp

lemma sents_answer:
  "split_sentences ''Paris is the capital of France.'' = [''Paris is the capital of France.'']"
  by code_simp

text \<open>
  C7. For the answer \<^verbatim>\<open>Paris is the capital of France.\<close> and the single context
  \<^verbatim>\<open>France's capital is Paris, a major European city.\<close> the faithfulness metric is
  exactly 1: the answer is one sentence with six distinct tokens, four of which occur
  in the context, and 4/6 is above one half.
\<close>

theorem faithfulness_paris:
  "faithfulness ''Paris is the capital of France.''
     [''France's capital is Paris, a major European city.''] = 1"
proof -
  have inter: "set [''paris'', ''is'', ''the'', ''capital'', ''of'', ''france''] \<inter>
      set [''france'', ''capital'', ''is'', ''paris'', ''major'', ''european'', ''city''] =
      {''paris'', ''is'', ''capital'', ''france''}"
    by auto
  have c1: "card {''paris'', ''is'', ''capital'', ''france''} = 4" by simp
  have c2: "card (set [''paris'', ''is'', ''the'', ''capital'', ''of'', ''france'']) = 6" by simp
  show ?thesis
    unfolding faithfulness_def sents_answer Let_def tok_context
    by (simp add: tok_answer inter c1 c2 round_one del: set_simps)
qed

subsection \<open>Aggregate and label\<close>

lemma py_round4_range:
  assumes "unit_range x"
  shows "unit_range (py_round4 x)"
proof -
  define y where "y = x * 10000"
  define f where "f = \<lfloor>y\<rfloor>"
  define n where "n = (if y - of_int f < 1 / 2 then f else if 1 / 2 < y - of_int f then f + 1
                       else if even f then f else f + 1)"
  have y: "0 \<le> y" "y \<le> 10000" using assms by (simp_all add: y_def unit_range_def)
  have f0: "0 \<le> f" using y(1) by (simp add: f_def)
  have fy: "of_int f \<le> y" by (simp add: f_def)
  have f1: "f \<le> 10000" using y(2) by (simp add: f_def floor_le_iff) 
  have "n \<le> 10000"
  proof (cases "f = 10000")
    case True
    with fy y(2) have "y - of_int f = 0" by simp
    then show ?thesis using True by (simp add: n_def)
  next
    case False
    with f1 have "f + 1 \<le> 10000" by simp
    then show ?thesis by (simp add: n_def)
  qed
  moreover have "0 \<le> n" using f0 by (simp add: n_def)
  moreover have "py_round4 x = of_int n / 10000"
    by (simp add: py_round4_def Let_def n_def f_def y_def)
  ultimately show ?thesis by (simp add: unit_range_def)
qed

lemma unit_range_consts: "unit_range 0" "unit_range (1 / 2)"
  by (simp_all add: unit_range_def)

lemma min_one_range: "0 \<le> r \<Longrightarrow> unit_range (min r 1)"
  by (auto simp: unit_range_def min_def)

lemma half_min_one_range: "0 \<le> r \<Longrightarrow> unit_range (min r 1 / 2)"
  by (auto simp: unit_range_def min_def)

lemma pos_ratio:
  assumes "0 < c" "c \<le> n"
  shows "0 < real c / real n" "real c / real n \<le> 1"
proof -
  from assms have "0 < n" by simp
  with assms show "0 < real c / real n" "real c / real n \<le> 1" by simp_all
qed

lemma ratio_range: "m \<le> n \<Longrightarrow> unit_range (real m / real n)"
  by (cases "n = 0") (simp_all add: unit_range_def)

lemma faithfulness_range: "unit_range (faithfulness answer contexts)"
  unfolding faithfulness_def Let_def
  by (auto intro!: py_round4_range ratio_range unit_range_consts)

lemma answer_relevancy_range: "unit_range (answer_relevancy question answer)"
  unfolding answer_relevancy_def Let_def
  by (auto intro!: py_round4_range unit_range_consts min_one_range half_min_one_range)

lemma context_precision_range: "unit_range (context_precision question contexts)"
  unfolding context_precision_def Let_def
  by (auto intro!: py_round4_range ratio_range unit_range_consts)

lemma context_recall_range: "unit_range (context_recall contexts ground_truth)"
  unfolding context_recall_def Let_def
  by (auto intro!: py_round4_range unit_range_consts min_one_range)

lemma counter_common_le_left: "counter_common a b \<le> length a"
proof -
  have "counter_common a b \<le> (\<Sum>t \<leftarrow> remdups a. count_list a t)"
    unfolding counter_common_def by (rule sum_list_mono) simp
  also have "\<dots> = sum (count_list a) (set a)"
    by (simp add: sum_list_distinct_conv_sum_set)
  also have "\<dots> = length a"
    by (rule sum_count_set) simp_all
  finally show ?thesis .
qed

lemma counter_common_le_right: "counter_common a b \<le> length b"
proof -
  have "counter_common a b \<le> (\<Sum>t \<leftarrow> remdups a. count_list b t)"
    unfolding counter_common_def by (rule sum_list_mono) simp
  also have "\<dots> = sum (count_list b) (set a)"
    by (simp add: sum_list_distinct_conv_sum_set)
  also have "\<dots> \<le> sum (count_list b) (set a \<union> set b)"
    by (rule sum_mono2) simp_all
  also have "\<dots> = length b"
    by (rule sum_count_set) simp_all
  finally show ?thesis .
qed

lemma f1_range:
  fixes p r :: real
  assumes "0 < p" "p \<le> 1" "0 < r" "r \<le> 1"
  shows "unit_range (2 * p * r / (p + r))"
proof -
  have "p * r \<le> p" "p * r \<le> r"
    using assms by (simp_all add: mult_left_le mult_left_le_one_le)
  then have "2 * p * r \<le> p + r" by simp
  moreover have "0 < p + r" using assms by simp
  moreover have "0 \<le> 2 * p * r" using assms by simp
  ultimately show ?thesis by (simp add: unit_range_def)
qed

lemma answer_correctness_range: "unit_range (answer_correctness answer ground_truth)"
proof -
  let ?a = "tokenize answer" and ?g = "tokenize ground_truth"
  let ?c = "counter_common ?a ?g"
  have "unit_range (2 * (real ?c / real (length ?a)) * (real ?c / real (length ?g)) /
          (real ?c / real (length ?a) + real ?c / real (length ?g)))" if "?c \<noteq> 0"
  proof (rule f1_range)
    from that have pos: "0 < ?c" by simp
    show "0 < real ?c / real (length ?a)" "real ?c / real (length ?a) \<le> 1"
      by (rule pos_ratio [OF pos counter_common_le_left])+
    show "0 < real ?c / real (length ?g)" "real ?c / real (length ?g) \<le> 1"
      by (rule pos_ratio [OF pos counter_common_le_right])+
  qed
  then show ?thesis
    unfolding answer_correctness_def Let_def
    by (auto intro!: py_round4_range unit_range_consts)
qed

lemma mean_range:
  assumes "list_all unit_range xs" "xs \<noteq> []"
  shows "unit_range (sum_list xs / real (length xs))"
proof -
  have "0 \<le> sum_list xs"
    using assms(1) by (intro sum_list_nonneg) (simp add: list_all_iff unit_range_def)
  moreover have "sum_list xs \<le> real (length xs)"
    using assms(1) sum_list_mono [of xs "\<lambda>x. x" "\<lambda>_. 1"]
    by (simp add: list_all_iff unit_range_def sum_list_triv)
  moreover have "0 < real (length xs)" using assms(2) by simp
  ultimately show ?thesis by (simp add: unit_range_def)
qed


lemma valid_scores_range:
  assumes "unit_range f" "unit_range r" "unit_range p"
    and "\<And>x. cr = Some x \<Longrightarrow> unit_range x" and "\<And>x. ac = Some x \<Longrightarrow> unit_range x"
  shows "list_all unit_range (valid_scores f r p cr ac)"
  using assms by (cases cr; cases ac) (simp_all add: valid_scores_def)

lemma label_of_thresholds:
  "(label_of a = Excellent \<longleftrightarrow> 8 / 10 \<le> a) \<and>
   (label_of a = Good \<longleftrightarrow> 6 / 10 \<le> a \<and> a < 8 / 10) \<and>
   (label_of a = Fair \<longleftrightarrow> 4 / 10 \<le> a \<and> a < 6 / 10) \<and>
   (label_of a = Poor \<longleftrightarrow> a < 4 / 10)"
  by (auto simp: label_of_def)

text \<open>
  C4 (amended). \<^verbatim>\<open>evaluate\<close> always has at least three defined metrics; its aggregate
  is their arithmetic mean rounded to four decimals, lies between 0 and 1, and the
  label follows the thresholds 0.8, 0.6 and 0.4 on it. Context recall and answer
  correctness are undefined exactly when the ground truth is missing or empty.
\<close>

theorem evaluate_aggregate:
  "let ev = evaluate question answer contexts ground_truth;
       valid = valid_scores (ev_faithfulness ev) (ev_answer_relevancy ev)
                 (ev_context_precision ev) (ev_context_recall ev) (ev_answer_correctness ev)
   in valid \<noteq> [] \<and>
      aggregate ev = py_round4 (sum_list valid / real (length valid)) \<and>
      0 \<le> aggregate ev \<and> aggregate ev \<le> 1 \<and>
      (quality_label ev = Excellent \<longleftrightarrow> 8 / 10 \<le> aggregate ev) \<and>
      (quality_label ev = Good \<longleftrightarrow> 6 / 10 \<le> aggregate ev \<and> aggregate ev < 8 / 10) \<and>
      (quality_label ev = Fair \<longleftrightarrow> 4 / 10 \<le> aggregate ev \<and> aggregate ev < 6 / 10) \<and>
      (quality_label ev = Poor \<longleftrightarrow> aggregate ev < 4 / 10) \<and>
      (ev_context_recall ev = None \<longleftrightarrow> ground_truth = None \<or> ground_truth = Some []) \<and>
      (ev_answer_correctness ev = None \<longleftrightarrow> ground_truth = None \<or> ground_truth = Some [])"
proof -
  define gt where
    "gt = (case ground_truth of None \<Rightarrow> None | Some g \<Rightarrow> if g \<noteq> [] then Some g else None)"
  define valid where
    "valid = valid_scores (faithfulness answer contexts) (answer_relevancy question answer)
       (context_precision question contexts) (map_option (context_recall contexts) gt)
       (map_option (answer_correctness answer) gt)"
  define agg where "agg = py_round4 (sum_list valid / real (length valid))"
  have ne: "valid \<noteq> []" by (simp add: valid_def valid_scores_def)
  have "list_all unit_range valid"
    unfolding valid_def
    by (rule valid_scores_range)
      (auto simp: faithfulness_range answer_relevancy_range context_precision_range
         context_recall_range answer_correctness_range)
  then have "unit_range agg"
    unfolding agg_def using ne by (intro py_round4_range mean_range)
  then have rng: "0 \<le> agg" "agg \<le> 1" by (simp_all add: unit_range_def)
  have null: "gt = None \<longleftrightarrow> ground_truth = None \<or> ground_truth = Some []"
    by (cases ground_truth) (simp_all add: gt_def)
  have ev: "evaluate question answer contexts ground_truth =
      \<lparr>ev_faithfulness = faithfulness answer contexts,
       ev_answer_relevancy = answer_relevancy question answer,
       ev_context_precision = context_precision question contexts,
       ev_context_recall = map_option (context_recall contexts) gt,
       ev_answer_correctness = map_option (answer_correctness answer) gt,
       aggregate = agg, quality_label = label_of agg\<rparr>"
    using ne by (simp add: evaluate_def Let_def gt_def valid_def agg_def)
  show ?thesis
    unfolding ev Let_def
    using ne rng null label_of_thresholds [of agg]
    by (simp add: valid_def [symmetric] agg_def [symmetric])
qed

text \<open>
  Three metrics 1, 1/2 and 1/2 have the mean 2/3, and the aggregate is 0.6667.
\<close>

lemma round_two_thirds: "py_round4 (2 / 3) = 6667 / 10000"
  by (simp add: py_round4_def Let_def)

lemma demo_tokens:
  "tokenize ''?'' = []" "tokenize ''ab cd.'' = [''ab'', ''cd'']"
  "tokenize (py_lower (join_sp [''ab cd''])) = [''ab'', ''cd'']"
  "split_sentences ''ab cd.'' = [''ab cd.'']"
  by code_simp+

lemma demo_faithfulness: "faithfulness ''ab cd.'' [''ab cd''] = 1"
  unfolding faithfulness_def Let_def demo_tokens
  by (simp add: demo_tokens round_one)

lemma demo_relevancy: "answer_relevancy ''?'' ''ab cd.'' = 1 / 2"
  by (simp add: answer_relevancy_def demo_tokens)

lemma demo_precision: "context_precision ''?'' [''ab cd''] = 1 / 2"
  by (simp add: context_precision_def demo_tokens)

theorem evaluate_aggregate_counterexample:
  "ev_faithfulness (evaluate ''?'' ''ab cd.'' [''ab cd''] None) = 1 \<and>
   ev_answer_relevancy (evaluate ''?'' ''ab cd.'' [''ab cd''] None) = 1 / 2 \<and>
   ev_context_precision (evaluate ''?'' ''ab cd.'' [''ab cd''] None) = 1 / 2 \<and>
   ev_context_recall (evaluate ''?'' ''ab cd.'' [''ab cd''] None) = None \<and>
   ev_answer_correctness (evaluate ''?'' ''ab cd.'' [''ab cd''] None) = None \<and>
   aggregate (evaluate ''?'' ''ab cd.'' [''ab cd''] None) = 6667 / 10000 \<and>
   aggregate (evaluate ''?'' ''ab cd.'' [''ab cd''] None) \<noteq> (1 + 1 / 2 + 1 / 2) / 3"
  by (simp add: evaluate_def Let_def valid_scores_def demo_faithfulness demo_relevancy
        demo_precision round_two_thirds)

theorem evaluate_aggregate_witness:
  "let ev = evaluate ''?'' ''ab cd.'' [''ab cd''] None;
       valid = valid_scores (ev_faithfulness ev) (ev_answer_relevancy ev)
                 (ev_context_precision ev) (ev_context_recall ev) (ev_answer_correctness ev)
   in valid = [1, 1 / 2, 1 / 2] \<and>
      aggregate ev = py_round4 (sum_list valid / real (length valid)) \<and>
      0 \<le> aggregate ev \<and> aggregate ev \<le> 1 \<and> quality_label ev = Good"
  using evaluate_aggregate [of "''?''" "''ab cd.''" "[''ab cd'']" None]
  by (simp add: evaluate_def Let_def valid_scores_def demo_faithfulness demo_relevancy
        demo_precision round_two_thirds label_of_def)

end
